theory Spec2Isabelle
  imports Main
begin

section \<open>The file-change subscriber of the type-checking daemon\<close>

text \<open>
  A shallow embedding of \<^verbatim>\<open>client/project_files_monitor.py\<close>: the class
  \<^verbatim>\<open>ProjectFilesMonitor\<close>, its constructor, the \<^verbatim>\<open>_name\<close> and
  \<^verbatim>\<open>_subscriptions\<close> properties and \<^verbatim>\<open>_handle_response\<close>.
  A leading underscore is not an Isabelle identifier, so the attribute \<^verbatim>\<open>self._x\<close>
  is the field \<open>self_x\<close>, and the methods drop the underscore.
\<close>

subsection \<open>Values, exceptions and the log\<close>

text \<open>
  Python values as far as the module builds or receives them (\<^verbatim>\<open>Dict[str, Any]\<close>):
  a dictionary with string keys is a map.
\<close>

datatype pyvalue =
    PNone
  | PBool bool
  | PInt int
  | PStr string
  | PList "pyvalue list"
  | PDict "string \<Rightarrow> pyvalue option"

text \<open>\<^verbatim>\<open>sys.exit(n)\<close> raises \<^verbatim>\<open>SystemExit(n)\<close>; the module raises nothing else.\<close>

datatype exn = SystemExit int

datatype level = DEBUG | INFO | WARNING | ERROR | CRITICAL

text \<open>
  A call \<^verbatim>\<open>LOG.error(msg, arg)\<close> hands the logger one record: the level, the format
  string and the arguments it is to be formatted with.
\<close>

record log_record =
  levelname :: level
  msg :: string
  args :: "pyvalue list"

subsection \<open>The collaborators\<close>

record arguments =
  current_directory :: string

record configuration =
  extensions :: "string list"

text \<open>
  Modelled from the spec: the type \<^verbatim>\<open>AnalysisDirectory\<close> of \<^verbatim>\<open>filesystem.py\<close>,
  which is not part of the excerpt. The subscriber stores it and hands it to the base
  class without looking into it.
\<close>

datatype analysis_directory = AnalysisDirectory string

text \<open>
  Modelled from the spec: the named tuple \<^verbatim>\<open>Subscription\<close> of
  \<^verbatim>\<open>watchman_subscriber.py\<close>, which is not part of the excerpt: a request bound to a
  root directory and a name, in the order the source passes them.
\<close>

record Subscription =
  root :: string
  name :: string
  subscription :: "string \<Rightarrow> pyvalue option"

text \<open>
  The file system as the upward search sees it: for a directory its proper ancestors,
  nearest first and the file-system root last, and whether a directory holds a regular
  file of a given name.
\<close>

record filesystem =
  parents :: "string \<Rightarrow> string list"
  is_file :: "string \<Rightarrow> string \<Rightarrow> bool"

subsection \<open>The subscriber and the process it runs in\<close>

text \<open>
  \<open>ident\<close> is the identity of the Python object: \<^verbatim>\<open>functools.lru_cache\<close> keys its
  entries by the hash and equality of \<^verbatim>\<open>self\<close>, which for this class are those of
  \<^verbatim>\<open>object\<close>.
\<close>

record monitor =
  ident :: nat
  self_arguments :: arguments
  self_configuration :: configuration
  self_analysis_directory :: analysis_directory
  self_extensions :: "string set"
  self_watchman_path :: "string option"

text \<open>
  What the methods share beyond \<^verbatim>\<open>self\<close>: the records handed to \<^verbatim>\<open>LOG\<close>, the one
  entry of the cache that \<^verbatim>\<open>functools.lru_cache(1)\<close> attaches to the function
  \<^verbatim>\<open>_subscriptions\<close> (key: the identity of \<^verbatim>\<open>self\<close>; value: the address of the
  list returned for it), and the lists allocated so far, a list's address being its index.
\<close>

record process =
  log_records :: "log_record list"
  lru_cache :: "(nat \<times> nat) option"
  heap :: "Subscription list list"

text \<open>The order in which the interpreter iterates over a set of strings.\<close>

type_synonym set_order = "string set \<Rightarrow> string list"

subsection \<open>Construction\<close>

text \<open>
  Modelled from the spec: \<^verbatim>\<open>find_root\<close> of \<^verbatim>\<open>filesystem.py\<close>, which is not part of
  the excerpt. It searches upward from the starting directory toward the file-system
  root and stops at the first ancestor, the starting directory included, that holds the
  target file; it answers \<^verbatim>\<open>None\<close> when there is none, and never raises.
\<close>

fun search_upward :: "filesystem \<Rightarrow> string \<Rightarrow> string list \<Rightarrow> string option" where
  "search_upward fs target_file [] = None"
| "search_upward fs target_file (directory # ancestors) =
     (if is_file fs directory target_file then Some directory
      else search_upward fs target_file ancestors)"

definition find_root :: "filesystem \<Rightarrow> string \<Rightarrow> string \<Rightarrow> string option" where
  "find_root fs original_directory target_file =
     search_upward fs target_file (original_directory # parents fs original_directory)"

text \<open>
  Modelled from the spec: the constructor of the base class \<^verbatim>\<open>WatchmanSubscriber\<close>,
  which is not part of the excerpt. It receives the analysis directory and, as the spec
  has it, construction does not raise.
\<close>

definition WatchmanSubscriber_init :: "analysis_directory \<Rightarrow> exn + unit" where
  "WatchmanSubscriber_init analysis_directory = Inr ()"

text \<open>
  \<^verbatim>\<open>ProjectFilesMonitor.__init__\<close>. The first argument after the file system is the
  identity of the object under construction.
\<close>

definition init ::
  "filesystem \<Rightarrow> nat \<Rightarrow> arguments \<Rightarrow> configuration \<Rightarrow> analysis_directory \<Rightarrow> exn + monitor"
where
  "init fs self arguments configuration analysis_directory =
     (case WatchmanSubscriber_init analysis_directory of
        Inl e \<Rightarrow> Inl e
      | Inr _ \<Rightarrow>
          Inr \<lparr> ident = self,
                self_arguments = arguments,
                self_configuration = configuration,
                self_analysis_directory = analysis_directory,
                self_extensions = set ([''py'', ''pyi''] @ extensions configuration),
                self_watchman_path =
                  find_root fs (current_directory arguments) ''.watchmanconfig'' \<rparr>)"

subsection \<open>The properties and the handler\<close>

definition pfm_name :: "monitor \<Rightarrow> string" where
  "pfm_name self = ''pyre_file_change_subscription''"

text \<open>The dictionary literal of \<^verbatim>\<open>_subscriptions\<close>, for the extensions in iteration order.\<close>

definition subscription_dict :: "string list \<Rightarrow> string \<Rightarrow> pyvalue option" where
  "subscription_dict exts =
     [''expression'' \<mapsto>
        PList [PStr ''allof'',
               PList [PStr ''type'', PStr ''f''],
               PList [PStr ''not'', PStr ''empty''],
               PList (PStr ''anyof'' #
                      map (\<lambda>extension. PList [PStr ''suffix'', PStr extension]) exts)],
      ''fields'' \<mapsto> PList [PStr ''name'']]"

definition missing_root_record :: "monitor \<Rightarrow> log_record" where
  "missing_root_record self =
     \<lparr> levelname = ERROR,
       msg = ''Could not find a watchman directory from the current directory (%s)'',
       args = [PStr (current_directory (self_arguments self))] \<rparr>"

text \<open>
  The function under the decorators, lines 47 to 65. \<^verbatim>\<open>not self._watchman_path\<close> is
  Python truthiness: it holds of \<^verbatim>\<open>None\<close> and of the empty string. A method returns
  its result, \<^verbatim>\<open>self\<close> and the process.
\<close>

definition subscriptions_body ::
  "set_order \<Rightarrow> monitor \<Rightarrow> process \<Rightarrow> (exn + nat) \<times> monitor \<times> process"
where
  "subscriptions_body iter self st =
     (let fatal = (Inl (SystemExit 0), self,
                   st\<lparr>log_records := log_records st @ [missing_root_record self]\<rparr>)
      in case self_watchman_path self of
           None \<Rightarrow> fatal
         | Some path \<Rightarrow>
             if path = [] then fatal
             else
               (Inr (length (heap st)), self,
                st\<lparr>heap := heap st @
                   [[\<lparr> root = path,
                       name = pfm_name self,
                       subscription = subscription_dict (iter (self_extensions self)) \<rparr>]]\<rparr>))"

text \<open>
  The property as decorated with \<^verbatim>\<open>functools.lru_cache(1)\<close>: a call whose key is in
  the cache returns the cached list; any other call runs the function, and when that
  returns, its result replaces the one entry of the cache. A call that raises stores
  nothing.
\<close>

definition subscriptions ::
  "set_order \<Rightarrow> monitor \<Rightarrow> process \<Rightarrow> (exn + nat) \<times> monitor \<times> process"
where
  "subscriptions iter self st =
     (let compute =
            (case subscriptions_body iter self st of
               (Inl e, self', st') \<Rightarrow> (Inl e, self', st')
             | (Inr result, self', st') \<Rightarrow>
                 (Inr result, self', st'\<lparr>lru_cache := Some (ident self, result)\<rparr>))
      in case lru_cache st of
           None \<Rightarrow> compute
         | Some (key, result) \<Rightarrow>
             if key = ident self then (Inr result, self, st) else compute)"

definition response_record :: "(string \<Rightarrow> pyvalue option) \<Rightarrow> log_record" where
  "response_record response =
     \<lparr> levelname = ERROR,
       msg = ''Received response from watchman: %s'',
       args = [PDict response] \<rparr>"

definition handle_response ::
  "monitor \<Rightarrow> (string \<Rightarrow> pyvalue option) \<Rightarrow> process \<Rightarrow> (exn + unit) \<times> monitor \<times> process"
where
  "handle_response self response st =
     (Inr (), self, st\<lparr>log_records := log_records st @ [response_record response]\<rparr>)"

text \<open>The process before any subscriber has run.\<close>

definition fresh_process :: process where
  "fresh_process = \<lparr> log_records = [], lru_cache = None, heap = [] \<rparr>"

subsection \<open>The worlds a process reaches\<close>

text \<open>
  A world is the list of the subscribers constructed so far, a subscriber's identity being
  its index in the list, together with the process. The process starts without
  subscribers. From there the class offers construction, the access to the subscription
  list (under any order in which the interpreter iterates the extension set, every
  element once) and the notification handler. Each of the two methods hands back the
  subscriber, which takes its place in the list. The name accessor has no effect, so it
  has no rule. The state after \<^verbatim>\<open>SystemExit\<close> is counted as reached, for a caller may
  catch the exception.
\<close>

inductive reachable :: "monitor list \<Rightarrow> process \<Rightarrow> bool" where
  start: "reachable [] fresh_process"
| construct:
    "reachable objs st \<Longrightarrow>
     init fs (length objs) arguments configuration analysis_directory = Inr m \<Longrightarrow>
     reachable (objs @ [m]) st"
| access:
    "reachable objs st \<Longrightarrow> m \<in> set objs \<Longrightarrow>
     set (iter (self_extensions m)) = self_extensions m \<Longrightarrow>
     distinct (iter (self_extensions m)) \<Longrightarrow>
     subscriptions iter m st = (result, m', st') \<Longrightarrow>
     reachable (objs[ident m := m']) st'"
| notify:
    "reachable objs st \<Longrightarrow> m \<in> set objs \<Longrightarrow>
     handle_response m response st = (result, m', st') \<Longrightarrow>
     reachable (objs[ident m := m']) st'"

text \<open>
  What holds in every such world: a subscriber sits at the index that is its identity,
  and the cache, when it holds an entry, holds it for a constructed subscriber with a
  non-empty watch root, and the entry's address is that of a list with one request made
  from this subscriber's root, the fixed name and an enumeration of its extension set.
\<close>

definition cached_for :: "monitor \<Rightarrow> Subscription list \<Rightarrow> bool" where
  "cached_for m l \<longleftrightarrow>
     (\<exists>path xs. self_watchman_path m = Some path \<and> path \<noteq> []
        \<and> set xs = self_extensions m \<and> distinct xs
        \<and> l = [\<lparr> root = path, name = pfm_name m, subscription = subscription_dict xs \<rparr>])"

definition world_inv :: "monitor list \<Rightarrow> process \<Rightarrow> bool" where
  "world_inv objs st \<longleftrightarrow>
     (\<forall>i<length objs. ident (objs ! i) = i)
     \<and> (\<forall>k r. lru_cache st = Some (k, r) \<longrightarrow>
           k < length objs \<and> r < length (heap st) \<and> cached_for (objs ! k) (heap st ! r))"

subsection \<open>Example inputs\<close>

text \<open>
  A checkout at \<^verbatim>\<open>/repo\<close> with the daemon started in \<^verbatim>\<open>/repo/client\<close>. The marker
  file lies in \<^verbatim>\<open>/repo\<close> and also in \<^verbatim>\<open>/\<close>, so the nearest ancestor holding it and
  the farthest differ.
\<close>

definition example_fs :: filesystem where
  "example_fs =
     \<lparr> parents = (\<lambda>d. if d = ''/repo/client'' then [''/repo'', ''/'']
                       else if d = ''/repo'' then [''/''] else []),
       is_file = (\<lambda>d f. (d = ''/repo'' \<or> d = ''/'') \<and> f = ''.watchmanconfig'') \<rparr>"

definition example_arguments :: arguments where
  "example_arguments = \<lparr> current_directory = ''/repo/client'' \<rparr>"

definition example_configuration :: configuration where
  "example_configuration = \<lparr> extensions = [''thrift'', ''py'', ''thrift''] \<rparr>"

text \<open>One iteration order of the sets of extensions that occur in the examples.\<close>

definition example_iter :: set_order where
  "example_iter S = filter (\<lambda>x. x \<in> S) [''pyi'', ''thrift'', ''py'']"

text \<open>The subscriber that the constructor builds from these inputs.\<close>

definition example_monitor :: monitor where
  "example_monitor =
     \<lparr> ident = 0,
       self_arguments = example_arguments,
       self_configuration = example_configuration,
       self_analysis_directory = AnalysisDirectory ''/repo'',
       self_extensions = {''py'', ''pyi'', ''thrift''},
       self_watchman_path = Some ''/repo'' \<rparr>"

text \<open>A subscriber for which the upward search found no marker file.\<close>

definition rootless_monitor :: monitor where
  "rootless_monitor =
     \<lparr> ident = 0,
       self_arguments = \<lparr> current_directory = ''/tmp/work'' \<rparr>,
       self_configuration = \<lparr> extensions = [] \<rparr>,
       self_analysis_directory = AnalysisDirectory ''/tmp/work'',
       self_extensions = {''py'', ''pyi''},
       self_watchman_path = None \<rparr>"

text \<open>The first subscriber after its watch root has been taken away.\<close>

definition unrooted_monitor :: monitor where
  "unrooted_monitor = example_monitor\<lparr>self_watchman_path := None\<rparr>"

text \<open>A second subscriber object in the same process, equal to the first in every field.\<close>

definition other_monitor :: monitor where
  "other_monitor = example_monitor\<lparr>ident := 1\<rparr>"

text \<open>The process after the first subscriber has read its list, and then the second.\<close>

definition after_first :: process where
  "after_first = snd (snd (subscriptions example_iter example_monitor fresh_process))"

definition after_other :: process where
  "after_other = snd (snd (subscriptions example_iter other_monitor after_first))"

definition example_response :: "string \<Rightarrow> pyvalue option" where
  "example_response =
     [''subscription'' \<mapsto> PStr ''pyre_file_change_subscription'',
      ''files'' \<mapsto> PList [PStr ''client/a.py'', PStr ''client/b.pyi''],
      ''is_fresh_instance'' \<mapsto> PBool False]"

section \<open>Properties\<close>

subsection \<open>Helper facts\<close>

lemma search_upward_None:
  "search_upward fs t ds = None \<longleftrightarrow> (\<forall>d\<in>set ds. \<not> is_file fs d t)"
  by (induction ds) auto

lemma search_upward_Some:
  "search_upward fs t ds = Some d \<Longrightarrow>
     \<exists>i<length ds. ds ! i = d \<and> is_file fs d t \<and> (\<forall>j<i. \<not> is_file fs (ds ! j) t)"
proof (induction ds)
  case Nil
  then show ?case by simp
next
  case (Cons a ds)
  show ?case
  proof (cases "is_file fs a t")
    case True
    with Cons.prems have "d = a" by simp
    with True show ?thesis by auto
  next
    case False
    with Cons.prems have "search_upward fs t ds = Some d" by simp
    from Cons.IH [OF this] obtain i where i: "i < length ds" "ds ! i = d" "is_file fs d t"
      "\<forall>j<i. \<not> is_file fs (ds ! j) t" by blast
    have "\<forall>j<Suc i. \<not> is_file fs ((a # ds) ! j) t"
      using False i(4) by (auto simp add: less_Suc_eq_0_disj)
    with i show ?thesis
      by (intro exI [of _ "Suc i"]) auto
  qed
qed

text \<open>A list that the accessor returns is the one its cache then holds for the subscriber.\<close>

lemma subscriptions_caches:
  "subscriptions iter self st = (Inr result, self1, st1) \<Longrightarrow>
     lru_cache st1 = Some (ident self, result)"
  by (auto simp add: subscriptions_def subscriptions_body_def Let_def
      split: option.splits if_splits prod.splits)

lemma example_iter_values:
  "example_iter {''py'', ''pyi'', ''thrift''} = [''pyi'', ''thrift'', ''py'']"
  "example_iter {''py'', ''pyi''} = [''pyi'', ''py'']"
  by (simp_all add: example_iter_def)

lemma after_first_value:
  "after_first =
     \<lparr> log_records = [],
       lru_cache = Some (0, 0),
       heap = [[\<lparr> root = ''/repo'', name = ''pyre_file_change_subscription'',
                  subscription = subscription_dict [''pyi'', ''thrift'', ''py''] \<rparr>]] \<rparr>"
  by (simp add: after_first_def subscriptions_def subscriptions_body_def Let_def
      example_monitor_def fresh_process_def pfm_name_def example_iter_values)

lemma after_other_value:
  "after_other =
     \<lparr> log_records = [],
       lru_cache = Some (1, 1),
       heap = [[\<lparr> root = ''/repo'', name = ''pyre_file_change_subscription'',
                  subscription = subscription_dict [''pyi'', ''thrift'', ''py''] \<rparr>],
               [\<lparr> root = ''/repo'', name = ''pyre_file_change_subscription'',
                  subscription = subscription_dict [''pyi'', ''thrift'', ''py''] \<rparr>]] \<rparr>"
  by (simp add: after_other_def after_first_value subscriptions_def subscriptions_body_def Let_def
      other_monitor_def example_monitor_def pfm_name_def example_iter_values)

subsection \<open>The invariant of the reachable worlds\<close>

lemma init_ident:
  "init fs self arguments configuration analysis_directory = Inr m \<Longrightarrow> ident m = self"
  by (auto simp add: init_def WatchmanSubscriber_init_def)

lemma subscriptions_cases:
  assumes "subscriptions iter m st = (res, m', st')"
  shows "m' = m \<and>
    ((\<exists>r. lru_cache st = Some (ident m, r) \<and> res = Inr r \<and> st' = st)
     \<or> ((\<forall>r. lru_cache st \<noteq> Some (ident m, r))
         \<and> (self_watchman_path m = None \<or> self_watchman_path m = Some [])
         \<and> res = Inl (SystemExit 0)
         \<and> st' = st\<lparr>log_records := log_records st @ [missing_root_record m]\<rparr>)
     \<or> ((\<forall>r. lru_cache st \<noteq> Some (ident m, r))
         \<and> (\<exists>path. self_watchman_path m = Some path \<and> path \<noteq> []
              \<and> res = Inr (length (heap st))
              \<and> st' = st\<lparr>heap := heap st @
                           [[\<lparr> root = path, name = pfm_name m,
                               subscription = subscription_dict (iter (self_extensions m)) \<rparr>]],
                         lru_cache := Some (ident m, length (heap st))\<rparr>)))"
  using assms
  by (auto simp add: subscriptions_def subscriptions_body_def Let_def
      split: option.splits if_splits)

lemma member_slot:
  assumes "\<forall>i<length objs. ident (objs ! i) = i" and "m \<in> set objs"
  shows "ident m < length objs \<and> objs ! ident m = m"
proof -
  from assms(2) obtain i where "i < length objs" "objs ! i = m"
    by (auto simp add: in_set_conv_nth)
  with assms(1) show ?thesis by auto
qed

lemma world_inv_start: "world_inv [] fresh_process"
  by (simp add: world_inv_def fresh_process_def)

lemma world_inv_construct:
  assumes "world_inv objs st"
    and "init fs (length objs) arguments configuration analysis_directory = Inr m"
  shows "world_inv (objs @ [m]) st"
proof -
  from assms(2) have "ident m = length objs" by (rule init_ident)
  with assms(1) show ?thesis
    by (auto simp add: world_inv_def nth_append less_Suc_eq)
qed

lemma world_inv_access:
  assumes inv: "world_inv objs st" and m: "m \<in> set objs"
    and e: "set (iter (self_extensions m)) = self_extensions m"
           "distinct (iter (self_extensions m))"
    and run: "subscriptions iter m st = (result, m', st')"
  shows "world_inv (objs[ident m := m']) st'"
proof -
  from inv have ids: "\<forall>i<length objs. ident (objs ! i) = i" by (simp add: world_inv_def)
  from member_slot [OF ids m] have slot: "ident m < length objs" "objs ! ident m = m" by auto
  from subscriptions_cases [OF run] have same: "m' = m" by simp
  with slot(2) list_update_id [of objs "ident m"] have objs: "objs[ident m := m'] = objs"
    by simp
  from subscriptions_cases [OF run] consider
      (hit) "st' = st"
    | (exit) "st' = st\<lparr>log_records := log_records st @ [missing_root_record m]\<rparr>"
    | (new) path where "self_watchman_path m = Some path" "path \<noteq> []"
        "st' = st\<lparr>heap := heap st @
                           [[\<lparr> root = path, name = pfm_name m,
                               subscription = subscription_dict (iter (self_extensions m)) \<rparr>]],
                         lru_cache := Some (ident m, length (heap st))\<rparr>"
    by blast
  then have "world_inv objs st'"
  proof cases
    case hit
    with inv show ?thesis by simp
  next
    case exit
    with inv show ?thesis by (simp add: world_inv_def)
  next
    case new
    have c: "cached_for m [\<lparr> root = path, name = pfm_name m,
                subscription = subscription_dict (iter (self_extensions m)) \<rparr>]"
      unfolding cached_for_def using new(1,2) e by blast
    from ids slot c show ?thesis
      by (simp add: world_inv_def new(3))
  qed
  with objs show ?thesis by simp
qed

lemma world_inv_notify:
  assumes inv: "world_inv objs st" and m: "m \<in> set objs"
    and run: "handle_response m response st = (result, m', st')"
  shows "world_inv (objs[ident m := m']) st'"
proof -
  from inv have ids: "\<forall>i<length objs. ident (objs ! i) = i" by (simp add: world_inv_def)
  from member_slot [OF ids m] have slot: "ident m < length objs" "objs ! ident m = m" by auto
  from run have same: "m' = m"
    and st': "st' = st\<lparr>log_records := log_records st @ [response_record response]\<rparr>"
    by (auto simp add: handle_response_def)
  from same slot(2) list_update_id [of objs "ident m"] have objs: "objs[ident m := m'] = objs"
    by simp
  from inv have "world_inv objs st'" by (simp add: world_inv_def st')
  with objs show ?thesis by simp
qed

lemma reachable_inv: "reachable objs st \<Longrightarrow> world_inv objs st"
proof (induction rule: reachable.induct)
  case start
  show ?case by (rule world_inv_start)
next
  case (construct objs st fs arguments configuration analysis_directory m)
  then show ?case by (blast intro: world_inv_construct)
next
  case (access objs st m iter result m' st')
  then show ?case by (blast intro: world_inv_access)
next
  case (notify objs st m response result m' st')
  then show ?case by (blast intro: world_inv_notify)
qed

text \<open>The example subscribers are what the constructor builds, in a fresh process.\<close>

lemma example_monitor_constructed:
  "init example_fs 0 example_arguments example_configuration (AnalysisDirectory ''/repo'')
     = Inr example_monitor"
  by (auto simp add: init_def WatchmanSubscriber_init_def find_root_def example_fs_def
      example_arguments_def example_configuration_def example_monitor_def)

lemma rootless_monitor_constructed:
  "init example_fs 0 \<lparr> current_directory = ''/tmp/work'' \<rparr> \<lparr> extensions = [] \<rparr>
       (AnalysisDirectory ''/tmp/work'')
     = Inr rootless_monitor"
  by (simp add: init_def WatchmanSubscriber_init_def find_root_def example_fs_def
      rootless_monitor_def)

lemma reachable_example: "reachable [example_monitor] fresh_process"
  using reachable.construct [OF reachable.start, of example_fs example_arguments
      example_configuration "AnalysisDirectory ''/repo''" example_monitor]
    example_monitor_constructed
  by simp

lemma reachable_rootless: "reachable [rootless_monitor] fresh_process"
  using reachable.construct [OF reachable.start, of example_fs
      "\<lparr> current_directory = ''/tmp/work'' \<rparr>" "\<lparr> extensions = [] \<rparr>"
      "AnalysisDirectory ''/tmp/work''" rootless_monitor]
    rootless_monitor_constructed
  by simp

lemma example_iter_enumerates:
  "set (example_iter (self_extensions example_monitor)) = self_extensions example_monitor"
  "distinct (example_iter (self_extensions example_monitor))"
  by (auto simp add: example_monitor_def example_iter_values)

lemma first_access_value:
  "subscriptions example_iter example_monitor fresh_process
     = (Inr 0, example_monitor, after_first)"
  by (simp add: after_first_value subscriptions_def subscriptions_body_def Let_def
      example_monitor_def fresh_process_def pfm_name_def example_iter_values)

lemma reachable_after_first: "reachable [example_monitor] after_first"
proof -
  have "reachable ([example_monitor][ident example_monitor := example_monitor]) after_first"
    by (rule reachable.access [OF reachable_example _ example_iter_enumerates
          first_access_value]) simp
  then show ?thesis by (simp add: example_monitor_def)
qed

lemma request_shape:
  assumes "set xs = exts" and "distinct xs"
  shows "\<exists>clauses.
           dom (subscription_dict xs) = {''expression'', ''fields''}
         \<and> subscription_dict xs ''expression'' =
             Some (PList [PStr ''allof'',
                          PList [PStr ''type'', PStr ''f''],
                          PList [PStr ''not'', PStr ''empty''],
                          PList (PStr ''anyof'' # clauses)])
         \<and> set clauses = (\<lambda>extension. PList [PStr ''suffix'', PStr extension]) ` exts
         \<and> distinct clauses
         \<and> length clauses = card exts
         \<and> subscription_dict xs ''fields'' = Some (PList [PStr ''name''])"
proof -
  define clauses where
    "clauses = map (\<lambda>extension. PList [PStr ''suffix'', PStr extension]) xs"
  have inj: "inj (\<lambda>extension. PList [PStr ''suffix'', PStr extension])"
    by (rule injI) simp
  have c1: "set clauses = (\<lambda>extension. PList [PStr ''suffix'', PStr extension]) ` exts"
    using assms(1) by (auto simp add: clauses_def)
  have c2: "distinct clauses"
    using assms(2) inj by (simp add: clauses_def distinct_map inj_on_def)
  have c3: "length clauses = card exts"
    using assms distinct_card [of xs] by (simp add: clauses_def)
  have d1: "dom (subscription_dict xs) = {''expression'', ''fields''}"
    by (auto simp add: subscription_dict_def)
  have d2: "subscription_dict xs ''expression'' =
             Some (PList [PStr ''allof'',
                          PList [PStr ''type'', PStr ''f''],
                          PList [PStr ''not'', PStr ''empty''],
                          PList (PStr ''anyof'' # clauses)])"
    by (simp add: subscription_dict_def clauses_def)
  have d3: "subscription_dict xs ''fields'' = Some (PList [PStr ''name''])"
    by (simp add: subscription_dict_def)
  from d1 d2 c1 c2 c3 d3 show ?thesis by blast
qed

text \<open>In a reachable world the accessor returns, for a subscriber with a watch root, a
  list that holds one request made from the subscriber's fields.\<close>

lemma subscriptions_returns_request:
  assumes r: "reachable objs st" and m: "self \<in> set objs"
    and p: "self_watchman_path self = Some path" "path \<noteq> []"
    and e: "set (iter (self_extensions self)) = self_extensions self"
           "distinct (iter (self_extensions self))"
  shows "\<exists>result st' xs.
           subscriptions iter self st = (Inr result, self, st')
         \<and> log_records st' = log_records st
         \<and> result < length (heap st')
         \<and> heap st' ! result =
             [\<lparr> root = path, name = pfm_name self, subscription = subscription_dict xs \<rparr>]
         \<and> set xs = self_extensions self \<and> distinct xs"
proof -
  from reachable_inv [OF r] have inv: "world_inv objs st" .
  then have ids: "\<forall>i<length objs. ident (objs ! i) = i" by (simp add: world_inv_def)
  from member_slot [OF ids m] have slot: "ident self < length objs" "objs ! ident self = self"
    by auto
  obtain res self' st' where run: "subscriptions iter self st = (res, self', st')"
    by (cases "subscriptions iter self st") auto
  from subscriptions_cases [OF run] p have same: "self' = self"
    and cases: "(\<exists>r. lru_cache st = Some (ident self, r) \<and> res = Inr r \<and> st' = st)
      \<or> (res = Inr (length (heap st))
          \<and> st' = st\<lparr>heap := heap st @
                           [[\<lparr> root = path, name = pfm_name self,
                               subscription = subscription_dict (iter (self_extensions self)) \<rparr>]],
                         lru_cache := Some (ident self, length (heap st))\<rparr>)"
    by auto
  from cases show ?thesis
  proof
    assume "\<exists>r. lru_cache st = Some (ident self, r) \<and> res = Inr r \<and> st' = st"
    then obtain r where hit: "lru_cache st = Some (ident self, r)" "res = Inr r" "st' = st"
      by blast
    from inv hit(1) slot have "r < length (heap st)" "cached_for self (heap st ! r)"
      by (auto simp add: world_inv_def)
    with p obtain xs where "heap st ! r =
        [\<lparr> root = path, name = pfm_name self, subscription = subscription_dict xs \<rparr>]"
      "set xs = self_extensions self" "distinct xs"
      by (auto simp add: cached_for_def)
    with run same hit \<open>r < length (heap st)\<close> show ?thesis by auto
  next
    assume new: "res = Inr (length (heap st))
          \<and> st' = st\<lparr>heap := heap st @
                           [[\<lparr> root = path, name = pfm_name self,
                               subscription = subscription_dict (iter (self_extensions self)) \<rparr>]],
                         lru_cache := Some (ident self, length (heap st))\<rparr>"
    with run same e show ?thesis by auto
  qed
qed

subsection \<open>The fatal path\<close>

text \<open>
  Claim C1. When the stored watchman path is \<^verbatim>\<open>None\<close>, the first access to the
  subscription list (no list is cached for the subscriber) hands the logger exactly one
  more record, of level \<^verbatim>\<open>ERROR\<close> and with the starting directory
  \<^verbatim>\<open>arguments.current_directory\<close> as its argument, and then leaves by
  \<^verbatim>\<open>SystemExit(0)\<close>: no list is returned, none is allocated and none is cached.
\<close>

theorem subscriptions_without_root_exits:
  assumes "self_watchman_path self = None"
    and "\<forall>result. lru_cache st \<noteq> Some (ident self, result)"
  shows "subscriptions iter self st =
           (Inl (SystemExit 0), self,
            st\<lparr>log_records := log_records st @
               [\<lparr> levelname = ERROR,
                   msg = ''Could not find a watchman directory from the current directory (%s)'',
                   args = [PStr (current_directory (self_arguments self))] \<rparr>]\<rparr>)"
  using assms
  by (auto simp add: subscriptions_def subscriptions_body_def missing_root_record_def Let_def
      split: option.split)

theorem subscriptions_without_root_exits_witness:
  "self_watchman_path rootless_monitor = None
   \<and> (\<forall>result. lru_cache fresh_process \<noteq> Some (ident rootless_monitor, result))
   \<and> subscriptions example_iter rootless_monitor fresh_process =
       (Inl (SystemExit 0), rootless_monitor,
        \<lparr> log_records =
            [\<lparr> levelname = ERROR,
                msg = ''Could not find a watchman directory from the current directory (%s)'',
                args = [PStr ''/tmp/work''] \<rparr>],
          lru_cache = None, heap = [] \<rparr>)"
proof -
  have h1: "self_watchman_path rootless_monitor = None"
    by (simp add: rootless_monitor_def)
  have h2: "\<forall>result. lru_cache fresh_process \<noteq> Some (ident rootless_monitor, result)"
    by (simp add: fresh_process_def)
  from subscriptions_without_root_exits [OF h1 h2, of example_iter] h1 h2
  show ?thesis
    by (simp add: rootless_monitor_def fresh_process_def)
qed

subsection \<open>Construction\<close>

text \<open>
  Claim C2. For every configuration, with extra-extension list \<open>L\<close>, construction
  stores as the watch-extension set exactly \<open>{py, pyi} \<union> set L\<close>: a set, so without
  duplicates, and the same for every list with the elements of \<open>L\<close>, in whatever order
  and multiplicity.
\<close>

theorem init_extensions:
  "\<exists>m. init fs self arguments configuration analysis_directory = Inr m
       \<and> self_extensions m = {''py'', ''pyi''} \<union> set (extensions configuration)"
  by (simp add: init_def WatchmanSubscriber_init_def)

theorem init_extensions_witness:
  "\<exists>m. init example_fs 0 example_arguments example_configuration (AnalysisDirectory ''/repo'')
         = Inr m
       \<and> self_extensions m = {''py'', ''pyi'', ''thrift''}"
  using init_extensions [of example_fs 0 example_arguments example_configuration
      "AnalysisDirectory ''/repo''"]
  by (auto simp add: example_configuration_def)

text \<open>
  Claim C4. For every starting directory \<open>D\<close>, construction returns a subscriber and
  never raises. If some directory among \<open>D\<close> and its ancestors holds the marker file
  \<^verbatim>\<open>.watchmanconfig\<close>, the stored watch root is the nearest of them: it holds the
  marker and no directory before it on the way up does. If none holds it, the stored
  watch root is \<^verbatim>\<open>None\<close>.
\<close>

theorem init_watchman_path:
  "\<exists>m. init fs self arguments configuration analysis_directory = Inr m \<and>
     (let ancestors = current_directory arguments # parents fs (current_directory arguments)
      in if \<exists>d\<in>set ancestors. is_file fs d ''.watchmanconfig''
         then \<exists>i<length ancestors.
                self_watchman_path m = Some (ancestors ! i)
                \<and> is_file fs (ancestors ! i) ''.watchmanconfig''
                \<and> (\<forall>j<i. \<not> is_file fs (ancestors ! j) ''.watchmanconfig'')
         else self_watchman_path m = None)"
proof -
  define ds where "ds = current_directory arguments # parents fs (current_directory arguments)"
  define m where "m = \<lparr> ident = self,
                self_arguments = arguments,
                self_configuration = configuration,
                self_analysis_directory = analysis_directory,
                self_extensions = set ([''py'', ''pyi''] @ extensions configuration),
                self_watchman_path = search_upward fs ''.watchmanconfig'' ds \<rparr>"
  have m: "init fs self arguments configuration analysis_directory = Inr m"
    by (simp add: init_def WatchmanSubscriber_init_def find_root_def m_def ds_def)
  have p: "self_watchman_path m = search_upward fs ''.watchmanconfig'' ds"
    by (simp add: m_def)
  have "if \<exists>d\<in>set ds. is_file fs d ''.watchmanconfig''
         then \<exists>i<length ds.
                self_watchman_path m = Some (ds ! i)
                \<and> is_file fs (ds ! i) ''.watchmanconfig''
                \<and> (\<forall>j<i. \<not> is_file fs (ds ! j) ''.watchmanconfig'')
         else self_watchman_path m = None"
  proof (cases "\<exists>d\<in>set ds. is_file fs d ''.watchmanconfig''")
    case True
    then have "search_upward fs ''.watchmanconfig'' ds \<noteq> None"
      by (simp add: search_upward_None)
    then obtain d where d: "search_upward fs ''.watchmanconfig'' ds = Some d" by blast
    from search_upward_Some [OF d] True p d show ?thesis by auto
  next
    case False
    then have "search_upward fs ''.watchmanconfig'' ds = None"
      by (simp add: search_upward_None)
    with False p show ?thesis by simp
  qed
  with m show ?thesis unfolding ds_def Let_def by blast
qed

theorem init_watchman_path_witness:
  "\<exists>m. init example_fs 0 example_arguments example_configuration (AnalysisDirectory ''/repo'')
         = Inr m
       \<and> self_watchman_path m = Some ''/repo''"
proof -
  have anc: "current_directory example_arguments
               # parents example_fs (current_directory example_arguments)
             = [''/repo/client'', ''/repo'', ''/'']"
    by (simp add: example_arguments_def example_fs_def)
  have marked: "\<exists>d\<in>set [''/repo/client'', ''/repo'', ''/''].
                  is_file example_fs d ''.watchmanconfig''"
    by (rule bexI [of _ "''/repo''"]) (simp_all add: example_fs_def)
  from init_watchman_path [of example_fs 0 example_arguments example_configuration
      "AnalysisDirectory ''/repo''"]
  obtain m where m: "init example_fs 0 example_arguments example_configuration
        (AnalysisDirectory ''/repo'') = Inr m"
    and nearest: "\<exists>i<length [''/repo/client'', ''/repo'', ''/''].
       self_watchman_path m = Some ([''/repo/client'', ''/repo'', ''/''] ! i)
       \<and> is_file example_fs ([''/repo/client'', ''/repo'', ''/''] ! i) ''.watchmanconfig''
       \<and> (\<forall>j<i. \<not> is_file example_fs ([''/repo/client'', ''/repo'', ''/''] ! j)
                     ''.watchmanconfig'')"
    unfolding anc Let_def if_P [OF marked] by blast
  from nearest obtain i where i: "i < length [''/repo/client'', ''/repo'', ''/'']"
      "self_watchman_path m = Some ([''/repo/client'', ''/repo'', ''/''] ! i)"
      "is_file example_fs ([''/repo/client'', ''/repo'', ''/''] ! i) ''.watchmanconfig''"
      "\<forall>j<i. \<not> is_file example_fs ([''/repo/client'', ''/repo'', ''/''] ! j) ''.watchmanconfig''"
    by blast
  from i(1) have "i = 0 \<or> i = 1 \<or> i = 2" by (simp add: less_Suc_eq numeral_2_eq_2)
  then have "i = 1"
  proof (elim disjE)
    assume "i = 0"
    with i(3) show ?thesis by (simp add: example_fs_def)
  next
    assume "i = 1"
    then show ?thesis .
  next
    assume "i = 2"
    with i(4) have "(1::nat) < 2 \<longrightarrow>
        \<not> is_file example_fs ([''/repo/client'', ''/repo'', ''/''] ! 1) ''.watchmanconfig''"
      by blast
    then show ?thesis by (simp add: example_fs_def)
  qed
  with i(2) have "self_watchman_path m = Some ''/repo''" by simp
  with m show ?thesis by blast
qed

text \<open>
  Claim C8. For every startup options, configuration and analysis directory, construction
  returns a subscriber: it raises nothing.
\<close>

theorem init_returns:
  "\<exists>m. init fs self arguments configuration analysis_directory = Inr m
       \<and> ident m = self
       \<and> self_arguments m = arguments
       \<and> self_configuration m = configuration
       \<and> self_analysis_directory m = analysis_directory"
  by (simp add: init_def WatchmanSubscriber_init_def)

theorem init_returns_witness:
  "init example_fs 0 example_arguments example_configuration (AnalysisDirectory ''/repo'')
     = Inr example_monitor"
proof -
  from init_returns [of example_fs 0 example_arguments example_configuration
      "AnalysisDirectory ''/repo''"]
  obtain m where m: "init example_fs 0 example_arguments example_configuration
        (AnalysisDirectory ''/repo'') = Inr m" by blast
  then have "m = example_monitor"
    by (auto simp add: init_def WatchmanSubscriber_init_def find_root_def example_fs_def
        example_arguments_def example_configuration_def example_monitor_def)
  with m show ?thesis by simp
qed

subsection \<open>The subscription name and the notification handler\<close>

text \<open>
  Claim C7. The subscription-name accessor returns the same fixed string for every
  subscriber, whatever it was constructed from and whatever has run before: it reads
  neither the subscriber's fields nor the process.
\<close>

theorem pfm_name_constant:
  "pfm_name self = ''pyre_file_change_subscription'' \<and> pfm_name self = pfm_name other"
  by (simp add: pfm_name_def)

theorem pfm_name_constant_witness:
  "pfm_name example_monitor = ''pyre_file_change_subscription''
   \<and> pfm_name example_monitor = pfm_name rootless_monitor"
  using pfm_name_constant [of example_monitor rootless_monitor]
    pfm_name_constant [of rootless_monitor example_monitor]
  by simp

text \<open>
  Claim C6. For every notification mapping, the handler hands the logger exactly one more
  record, of level \<^verbatim>\<open>ERROR\<close> and with the whole notification as its argument,
  returns \<^verbatim>\<open>None\<close>, raises nothing and changes nothing else: not the cache, not the
  allocated lists, not the subscriber.
\<close>

theorem handle_response_logs:
  "\<exists>st'. handle_response self response st = (Inr (), self, st')
         \<and> log_records st' = log_records st @
              [\<lparr> levelname = ERROR, msg = ''Received response from watchman: %s'',
                  args = [PDict response] \<rparr>]
         \<and> lru_cache st' = lru_cache st \<and> heap st' = heap st"
  by (simp add: handle_response_def response_record_def)

theorem handle_response_logs_witness:
  "\<exists>st'. handle_response example_monitor example_response fresh_process
           = (Inr (), example_monitor, st')
         \<and> log_records st' =
              [\<lparr> levelname = ERROR, msg = ''Received response from watchman: %s'',
                  args = [PDict example_response] \<rparr>]
         \<and> lru_cache st' = None \<and> heap st' = []"
  using handle_response_logs [of example_monitor example_response fresh_process]
  by (simp add: fresh_process_def)

subsection \<open>The subscription list\<close>

text \<open>
  Claim C3. When a watch root is present (the stored path of a constructed subscriber is
  a directory path, a non-empty string), the accessor returns, in every world that the
  class's operations reach and whether the list is computed or comes from the cache, the
  address of a list of exactly one request. The request is bound to the stored watch root
  and to the fixed subscription name; its dictionary has the keys \<^verbatim>\<open>expression\<close> and
  \<^verbatim>\<open>fields\<close> and no other; the expression is \<^verbatim>\<open>allof\<close> of the regular-file clause,
  the not-empty clause and an \<^verbatim>\<open>anyof\<close> list whose clauses are, each exactly once, the
  suffix clauses of the watched extensions; the fields are \<^verbatim>\<open>["name"]\<close>. This holds for
  every order in which the set of extensions is iterated.
\<close>

theorem subscriptions_present_root:
  assumes "reachable objs st" and "self \<in> set objs"
    and "self_watchman_path self = Some path" and "path \<noteq> []"
    and "set (iter (self_extensions self)) = self_extensions self"
    and "distinct (iter (self_extensions self))"
  shows "\<exists>result st' request clauses.
           subscriptions iter self st = (Inr result, self, st')
         \<and> result < length (heap st')
         \<and> heap st' ! result = [request]
         \<and> root request = path
         \<and> name request = ''pyre_file_change_subscription''
         \<and> dom (subscription request) = {''expression'', ''fields''}
         \<and> subscription request ''expression'' =
             Some (PList [PStr ''allof'',
                          PList [PStr ''type'', PStr ''f''],
                          PList [PStr ''not'', PStr ''empty''],
                          PList (PStr ''anyof'' # clauses)])
         \<and> set clauses =
             (\<lambda>extension. PList [PStr ''suffix'', PStr extension]) ` self_extensions self
         \<and> distinct clauses
         \<and> length clauses = card (self_extensions self)
         \<and> subscription request ''fields'' = Some (PList [PStr ''name''])"
proof -
  from subscriptions_returns_request [where iter = iter, OF assms]
  obtain result st' xs where run: "subscriptions iter self st = (Inr result, self, st')"
    and res: "result < length (heap st')"
      "heap st' ! result =
         [\<lparr> root = path, name = pfm_name self, subscription = subscription_dict xs \<rparr>]"
    and xs: "set xs = self_extensions self" "distinct xs"
    by blast
  define request where
    "request = \<lparr> root = path, name = pfm_name self, subscription = subscription_dict xs \<rparr>"
  from request_shape [OF xs] obtain clauses where shape:
    "dom (subscription_dict xs) = {''expression'', ''fields''}"
    "subscription_dict xs ''expression'' =
             Some (PList [PStr ''allof'',
                          PList [PStr ''type'', PStr ''f''],
                          PList [PStr ''not'', PStr ''empty''],
                          PList (PStr ''anyof'' # clauses)])"
    "set clauses = (\<lambda>extension. PList [PStr ''suffix'', PStr extension]) ` self_extensions self"
    "distinct clauses"
    "length clauses = card (self_extensions self)"
    "subscription_dict xs ''fields'' = Some (PList [PStr ''name''])"
    by blast
  have f: "root request = path" "name request = ''pyre_file_change_subscription''"
    "subscription request = subscription_dict xs"
    by (simp_all add: request_def pfm_name_def)
  from res(2) have h: "heap st' ! result = [request]" by (simp add: request_def)
  from run res(1) h f(1,2) shape [folded f(3)] show ?thesis by blast
qed

theorem subscriptions_present_root_witness:
  "reachable [example_monitor] after_first
   \<and> example_monitor \<in> set [example_monitor]
   \<and> self_watchman_path example_monitor = Some ''/repo''
   \<and> ''/repo'' \<noteq> []
   \<and> set (example_iter (self_extensions example_monitor)) = self_extensions example_monitor
   \<and> distinct (example_iter (self_extensions example_monitor))
   \<and> (\<exists>result st' request clauses.
           subscriptions example_iter example_monitor after_first
             = (Inr result, example_monitor, st')
         \<and> result < length (heap st')
         \<and> heap st' ! result = [request]
         \<and> root request = ''/repo''
         \<and> name request = ''pyre_file_change_subscription''
         \<and> subscription request ''expression'' =
             Some (PList [PStr ''allof'',
                          PList [PStr ''type'', PStr ''f''],
                          PList [PStr ''not'', PStr ''empty''],
                          PList (PStr ''anyof'' # clauses)])
         \<and> set clauses = {PList [PStr ''suffix'', PStr ''py''],
                           PList [PStr ''suffix'', PStr ''pyi''],
                           PList [PStr ''suffix'', PStr ''thrift'']}
         \<and> length clauses = 3
         \<and> subscription request ''fields'' = Some (PList [PStr ''name'']))"
proof -
  have h1: "example_monitor \<in> set [example_monitor]" by simp
  have h2: "self_watchman_path example_monitor = Some ''/repo''"
    by (simp add: example_monitor_def)
  have h3: "''/repo'' \<noteq> []" by simp
  have e: "self_extensions example_monitor = {''py'', ''pyi'', ''thrift''}"
    by (simp add: example_monitor_def)
  have c: "card {''py'', ''pyi'', ''thrift''} = 3" by simp
  from subscriptions_present_root
    [where iter = example_iter,
      OF reachable_after_first h1 h2 h3 example_iter_enumerates]
  obtain result st' request clauses where
    "subscriptions example_iter example_monitor after_first
       = (Inr result, example_monitor, st')"
    "result < length (heap st')"
    "heap st' ! result = [request]"
    "root request = ''/repo''"
    "name request = ''pyre_file_change_subscription''"
    "subscription request ''expression'' =
             Some (PList [PStr ''allof'',
                          PList [PStr ''type'', PStr ''f''],
                          PList [PStr ''not'', PStr ''empty''],
                          PList (PStr ''anyof'' # clauses)])"
    "set clauses = {PList [PStr ''suffix'', PStr ''py''],
                           PList [PStr ''suffix'', PStr ''pyi''],
                           PList [PStr ''suffix'', PStr ''thrift'']}"
    "length clauses = 3"
    "subscription request ''fields'' = Some (PList [PStr ''name''])"
    unfolding e c by auto
  with reachable_after_first h1 h2 h3 example_iter_enumerates show ?thesis by blast
qed

subsection \<open>The cache of the subscription list\<close>

text \<open>
  Claim C5, as the specification states it, fails in a process with two subscribers. The
  cache of \<^verbatim>\<open>functools.lru_cache(1)\<close> belongs to the function and holds one entry: the
  second subscriber's access replaces the first one's entry, so the first subscriber's
  next access computes again. It returns a newly allocated list (address 2, not 0), and
  had the first subscriber lost its watch root in between, the access would log and exit.
\<close>

theorem subscriptions_recomputed_counterexample:
  "fst (subscriptions example_iter example_monitor fresh_process) = Inr 0
   \<and> fst (subscriptions example_iter other_monitor after_first) = Inr 1
   \<and> fst (subscriptions example_iter example_monitor after_other) = Inr 2
   \<and> length (heap (snd (snd (subscriptions example_iter example_monitor after_other)))) = 3
   \<and> fst (subscriptions example_iter unrooted_monitor after_other) = Inl (SystemExit 0)"
  by (simp add: after_first_value after_other_value subscriptions_def subscriptions_body_def
      Let_def example_monitor_def other_monitor_def unrooted_monitor_def fresh_process_def)

text \<open>
  Claim C5, amended. Once an access has returned a list for a subscriber, every later
  access by the same subscriber object returns the list at the same address and leaves
  the process as it is (nothing is computed, logged or allocated, and the watch root is
  not looked at, whatever the subscriber's fields have become), as long as the cache
  still holds that entry: no other subscriber's list has been computed in between.
\<close>

theorem subscriptions_cached:
  assumes "subscriptions iter self st = (Inr result, self1, st1)"
    and "ident self2 = ident self"
    and "lru_cache st2 = lru_cache st1"
  shows "subscriptions iter2 self2 st2 = (Inr result, self2, st2)"
proof -
  from assms(1) have "lru_cache st1 = Some (ident self, result)"
    by (rule subscriptions_caches)
  with assms(2,3) show ?thesis
    by (simp add: subscriptions_def Let_def)
qed

theorem subscriptions_cached_witness:
  "subscriptions example_iter example_monitor fresh_process
     = (Inr 0, example_monitor, after_first)
   \<and> ident unrooted_monitor = ident example_monitor
   \<and> self_watchman_path unrooted_monitor = None
   \<and> lru_cache (snd (snd (handle_response example_monitor example_response after_first)))
       = lru_cache after_first
   \<and> subscriptions example_iter unrooted_monitor
         (snd (snd (handle_response example_monitor example_response after_first)))
       = (Inr 0, unrooted_monitor,
          snd (snd (handle_response example_monitor example_response after_first)))"
proof -
  have h1: "subscriptions example_iter example_monitor fresh_process
              = (Inr 0, example_monitor, after_first)"
    by (simp add: after_first_value subscriptions_def subscriptions_body_def Let_def
        example_monitor_def fresh_process_def pfm_name_def example_iter_values)
  have h2: "ident unrooted_monitor = ident example_monitor"
    by (simp add: unrooted_monitor_def)
  have h3: "lru_cache (snd (snd (handle_response example_monitor example_response after_first)))
              = lru_cache after_first"
    by (simp add: handle_response_def)
  have h4: "self_watchman_path unrooted_monitor = None"
    by (simp add: unrooted_monitor_def)
  from subscriptions_cached [OF h1 h2 h3, of example_iter] h1 h2 h3 h4
  show ?thesis by simp
qed

subsection \<open>When the accessor exits\<close>

text \<open>
  Claim C9. In every world that the class's operations reach, for a constructed subscriber
  whose stored watch root is absent or a directory path (not the empty string) and under
  every iteration order: the accessor hands the logger an \<^verbatim>\<open>ERROR\<close> record and leaves
  by \<^verbatim>\<open>SystemExit(0)\<close> if and only if the stored watch root is absent, and it raises at
  all only then. When a watch root is present, the accessor returns normally with the
  subscriber unchanged, the log is as it was and the process goes on.
\<close>

theorem subscriptions_exit_iff_absent:
  assumes "reachable objs st" and "self \<in> set objs"
    and "self_watchman_path self \<noteq> Some ''''"
  shows "(subscriptions iter self st =
            (Inl (SystemExit 0), self,
             st\<lparr>log_records := log_records st @
                [\<lparr> levelname = ERROR,
                    msg = ''Could not find a watchman directory from the current directory (%s)'',
                    args = [PStr (current_directory (self_arguments self))] \<rparr>]\<rparr>)
          \<longleftrightarrow> self_watchman_path self = None)
       \<and> ((\<exists>e st'. subscriptions iter self st = (Inl e, self, st'))
          \<longleftrightarrow> self_watchman_path self = None)
       \<and> (self_watchman_path self \<noteq> None \<longrightarrow>
            (\<exists>result st'. subscriptions iter self st = (Inr result, self, st')
               \<and> log_records st' = log_records st))"
proof -
  from reachable_inv [OF assms(1)] have inv: "world_inv objs st" .
  then have ids: "\<forall>i<length objs. ident (objs ! i) = i" by (simp add: world_inv_def)
  from member_slot [OF ids assms(2)]
  have slot: "ident self < length objs" "objs ! ident self = self" by auto
  show ?thesis
  proof (cases "self_watchman_path self")
    case None
    have miss: "\<forall>result. lru_cache st \<noteq> Some (ident self, result)"
    proof (intro allI notI)
      fix result assume "lru_cache st = Some (ident self, result)"
      with inv slot have "cached_for self (heap st ! result)"
        by (auto simp add: world_inv_def)
      with None show False by (simp add: cached_for_def)
    qed
    with None show ?thesis
      by (auto simp add: subscriptions_def subscriptions_body_def Let_def missing_root_record_def
          split: option.splits)
  next
    case (Some path)
    with assms(3) have "path \<noteq> []" by simp
    with Some show ?thesis
      by (auto simp add: subscriptions_def subscriptions_body_def Let_def
          split: option.splits)
  qed
qed

theorem subscriptions_exit_iff_absent_witness:
  "reachable [rootless_monitor] fresh_process
   \<and> rootless_monitor \<in> set [rootless_monitor]
   \<and> self_watchman_path rootless_monitor \<noteq> Some ''''
   \<and> self_watchman_path rootless_monitor = None
   \<and> subscriptions example_iter rootless_monitor fresh_process =
       (Inl (SystemExit 0), rootless_monitor,
        \<lparr> log_records =
            [\<lparr> levelname = ERROR,
                msg = ''Could not find a watchman directory from the current directory (%s)'',
                args = [PStr ''/tmp/work''] \<rparr>],
          lru_cache = None, heap = [] \<rparr>)
   \<and> reachable [example_monitor] after_first
   \<and> example_monitor \<in> set [example_monitor]
   \<and> self_watchman_path example_monitor \<noteq> Some ''''
   \<and> self_watchman_path example_monitor \<noteq> None
   \<and> (\<exists>result st'. subscriptions example_iter example_monitor after_first
                       = (Inr result, example_monitor, st')
         \<and> log_records st' = [])"
proof -
  have a1: "rootless_monitor \<in> set [rootless_monitor]" by simp
  have a2: "self_watchman_path rootless_monitor \<noteq> Some ''''"
    and a3: "self_watchman_path rootless_monitor = None"
    by (simp_all add: rootless_monitor_def)
  have b1: "example_monitor \<in> set [example_monitor]" by simp
  have b2: "self_watchman_path example_monitor \<noteq> Some ''''"
    and b3: "self_watchman_path example_monitor \<noteq> None"
    by (simp_all add: example_monitor_def)
  have l: "log_records after_first = []" by (simp add: after_first_value)
  from subscriptions_exit_iff_absent [OF reachable_rootless a1 a2, of example_iter] a3
  have a: "subscriptions example_iter rootless_monitor fresh_process =
       (Inl (SystemExit 0), rootless_monitor,
        \<lparr> log_records =
            [\<lparr> levelname = ERROR,
                msg = ''Could not find a watchman directory from the current directory (%s)'',
                args = [PStr ''/tmp/work''] \<rparr>],
          lru_cache = None, heap = [] \<rparr>)"
    by (simp add: rootless_monitor_def fresh_process_def)
  from subscriptions_exit_iff_absent [OF reachable_after_first b1 b2, of example_iter] b3 l
  have b: "\<exists>result st'. subscriptions example_iter example_monitor after_first
                       = (Inr result, example_monitor, st')
         \<and> log_records st' = []"
    by simp
  from reachable_rootless a1 a2 a3 a reachable_after_first b1 b2 b3 b show ?thesis by blast
qed

subsection \<open>What the operations leave alone\<close>

text \<open>
  Claim C10. The extension set and the watch root are fixed at construction. Reading the
  subscription list, on the path that returns as on the path that exits, and handling a
  notification return the subscriber with every field as it was; the name is a function
  of the subscriber and has nothing to change. The extension set is a set of its own: a
  later change of the configuration changes neither the stored set nor the list that the
  accessor returns or allocates.
\<close>

theorem operations_keep_subscriber:
  "fst (snd (subscriptions iter self st)) = self
   \<and> fst (snd (handle_response self response st)) = self
   \<and> self_extensions (self\<lparr>self_configuration := changed\<rparr>) = self_extensions self
   \<and> self_watchman_path (self\<lparr>self_configuration := changed\<rparr>) = self_watchman_path self
   \<and> fst (subscriptions iter (self\<lparr>self_configuration := changed\<rparr>) st)
       = fst (subscriptions iter self st)
   \<and> snd (snd (subscriptions iter (self\<lparr>self_configuration := changed\<rparr>) st))
       = snd (snd (subscriptions iter self st))"
  by (auto simp add: subscriptions_def subscriptions_body_def Let_def handle_response_def
      pfm_name_def missing_root_record_def
      split: option.splits)

theorem operations_keep_subscriber_witness:
  "fst (snd (subscriptions example_iter example_monitor fresh_process)) = example_monitor
   \<and> fst (snd (handle_response example_monitor example_response after_first))
       = example_monitor
   \<and> self_extensions (example_monitor\<lparr>self_configuration := \<lparr>extensions = [''java'']\<rparr>\<rparr>)
       = {''py'', ''pyi'', ''thrift''}
   \<and> subscriptions example_iter
         (example_monitor\<lparr>self_configuration := \<lparr>extensions = [''java'']\<rparr>\<rparr>) fresh_process
       = (Inr 0, example_monitor\<lparr>self_configuration := \<lparr>extensions = [''java'']\<rparr>\<rparr>,
          after_first)"
proof -
  have h1: "subscriptions example_iter example_monitor fresh_process
              = (Inr 0, example_monitor, after_first)"
    by (simp add: after_first_value subscriptions_def subscriptions_body_def Let_def
        example_monitor_def fresh_process_def pfm_name_def example_iter_values)
  have e: "self_extensions example_monitor = {''py'', ''pyi'', ''thrift''}"
    by (simp add: example_monitor_def)
  from operations_keep_subscriber [of example_iter example_monitor fresh_process
      example_response "\<lparr>extensions = [''java'']\<rparr>"]
    operations_keep_subscriber [of example_iter example_monitor after_first
      example_response "\<lparr>extensions = [''java'']\<rparr>"]
    operations_keep_subscriber [of example_iter
      "example_monitor\<lparr>self_configuration := \<lparr>extensions = [''java'']\<rparr>\<rparr>" fresh_process
      example_response "\<lparr>extensions = [''java'']\<rparr>"]
    h1 e
  show ?thesis
    by (simp add: prod_eq_iff)
qed


end
